theory Spec2Isabelle
  imports Complex_Main
begin

section \<open>Mueller and Muller clock recovery (notebook 8, Synchronization)\<close>

text \<open>
  The embedding follows the code cell "Time Synchronization" of
  \<^verbatim>\<open>src/8_wip_Synchronization.ipynb\<close> and the pulse-train construction of its first
  code cell.  The cell is modelled twice.  The first model computes in exact arithmetic:
  \<^verbatim>\<open>float64\<close> and \<^verbatim>\<open>complex128\<close> are \<^typ>\<open>real\<close> and \<^typ>\<open>complex\<close>.  It carries the
  properties that rounding does not change: those of the loop condition, of the slicer, of
  the first iteration, of streams whose detector values stay far from a rounding boundary.
  The second model computes in binary64, with rounding, overflow, infinities and NaN, and
  carries the properties that depend on them: the range of the accumulator, the index
  that is read, and the ways the loop can end.  Python integers are \<^typ>\<open>int\<close>.  An
  exception is a value \<open>Inl e\<close>.
\<close>

subsection \<open>Python and NumPy primitives\<close>

datatype error = IndexError | ValueError | OverflowError

definition ebind :: "error + 'a \<Rightarrow> ('a \<Rightarrow> error + 'b) \<Rightarrow> error + 'b" where
  "ebind m f = (case m of Inl e \<Rightarrow> Inl e | Inr v \<Rightarrow> f v)"

text \<open>\<^verbatim>\<open>xs[i]\<close>: a negative index counts from the end; outside \<open>-len \<le> i < len\<close> it raises.\<close>

definition py_get :: "'a list \<Rightarrow> int \<Rightarrow> error + 'a" where
  "py_get xs i =
     (if 0 \<le> i \<and> i < int (length xs) then Inr (xs ! nat i)
      else if - int (length xs) \<le> i \<and> i < 0 then Inr (xs ! nat (int (length xs) + i))
      else Inl IndexError)"

text \<open>\<^verbatim>\<open>xs[i] = v\<close>, with the same index convention.\<close>

definition py_set :: "'a list \<Rightarrow> int \<Rightarrow> 'a \<Rightarrow> error + 'a list" where
  "py_set xs i v =
     (if 0 \<le> i \<and> i < int (length xs) then Inr (xs[nat i := v])
      else if - int (length xs) \<le> i \<and> i < 0 then Inr (xs[nat (int (length xs) + i) := v])
      else Inl IndexError)"

text \<open>\<^verbatim>\<open>xs[lo:hi]\<close> with step 1: both bounds are clipped to the array.\<close>

definition py_clip :: "nat \<Rightarrow> int \<Rightarrow> nat" where
  "py_clip n i = (if i < 0 then nat (max (i + int n) 0) else min (nat i) n)"

definition py_slice :: "'a list \<Rightarrow> int \<Rightarrow> int \<Rightarrow> 'a list" where
  "py_slice xs lo hi = drop (py_clip (length xs) lo) (take (py_clip (length xs) hi) xs)"

text \<open>\<^verbatim>\<open>int(x)\<close> on a float truncates towards zero.\<close>

definition py_int :: "real \<Rightarrow> int" where
  "py_int r = (if 0 \<le> r then \<lfloor>r\<rfloor> else \<lceil>r\<rceil>)"

text \<open>\<^verbatim>\<open>int(b)\<close> on a Boolean.\<close>

definition int_of_bool :: "bool \<Rightarrow> real" where
  "int_of_bool b = (if b then 1 else 0)"

subsection \<open>The pulse train (first code cell)\<close>

text \<open>
  \<^verbatim>\<open>pulse = np.zeros(sps); pulse[0] = bit*2-1\<close>: the write raises when \<open>sps = 0\<close>.
\<close>

definition pulse :: "nat \<Rightarrow> int \<Rightarrow> error + real list" where
  "pulse sps b = py_set (replicate sps 0) 0 (of_int (b * 2 - 1))"

text \<open>The \<^verbatim>\<open>for bit in bits\<close> loop, concatenating each pulse to the train built so far.\<close>

fun pulse_train_loop :: "nat \<Rightarrow> int list \<Rightarrow> real list \<Rightarrow> error + real list" where
  "pulse_train_loop sps [] pulse_train = Inr pulse_train"
| "pulse_train_loop sps (b # bits) pulse_train =
     (case pulse sps b of
        Inl e \<Rightarrow> Inl e
      | Inr p \<Rightarrow> pulse_train_loop sps bits (pulse_train @ p))"

definition pulse_train :: "nat \<Rightarrow> int list \<Rightarrow> error + real list" where
  "pulse_train sps bits = pulse_train_loop sps bits []"

subsection \<open>The recovery loop (code cell "Time Synchronization"), in exact arithmetic\<close>

text \<open>
  The slicer: \<^verbatim>\<open>int(np.real(v) > 0) + 1j*int(np.imag(v) > 0)\<close>.
\<close>

definition slicer :: "complex \<Rightarrow> complex" where
  "slicer v = Complex (int_of_bool (Re v > 0)) (int_of_bool (Im v > 0))"

record mm_state =
  mu :: real
  out :: "complex list"
  out_rail :: "complex list"
  i_in :: int
  i_out :: int

text \<open>The state before the loop: both arrays hold \<open>len(samples) + 10\<close> zeros.\<close>

definition mm_init :: "complex list \<Rightarrow> mm_state" where
  "mm_init samples =
     \<lparr> mu = 0,
       out = replicate (length samples + 10) 0,
       out_rail = replicate (length samples + 10) 0,
       i_in = 0,
       i_out = 2 \<rparr>"

text \<open>The loop condition \<^verbatim>\<open>i_out < len(samples) and i_in+16 < len(samples)\<close>.\<close>

definition mm_guard :: "complex list \<Rightarrow> mm_state \<Rightarrow> bool" where
  "mm_guard samples s \<longleftrightarrow>
     i_out s < int (length samples) \<and> i_in s + 16 < int (length samples)"

text \<open>
  In this section the arithmetic is exact; the same statements in float64 arithmetic are
  \<open>mm64_detect\<close>, \<open>mm64_update\<close> and \<open>mm64_step\<close> below.

  The first five statements of the loop body: the sample selection
  \<^verbatim>\<open>out[i_out] = samples[i_in + int(mu)]\<close>, the slicer, and the detector value
  \<^verbatim>\<open>mm_val = np.real(y - x)\<close>.  The result is the state with both arrays written,
  and \<open>mm_val\<close>.
\<close>

definition mm_detect :: "complex list \<Rightarrow> mm_state \<Rightarrow> error + (mm_state \<times> real)" where
  "mm_detect samples s =
     ebind (py_get samples (i_in s + py_int (mu s))) (\<lambda>smp.
     ebind (py_set (out s) (i_out s) smp) (\<lambda>out1.
     ebind (py_get out1 (i_out s)) (\<lambda>o0.
     ebind (py_set (out_rail s) (i_out s) (slicer o0)) (\<lambda>rail1.
     ebind (py_get rail1 (i_out s)) (\<lambda>r0.
     ebind (py_get rail1 (i_out s - 2)) (\<lambda>r2.
     ebind (py_get out1 (i_out s - 1)) (\<lambda>o1.
     ebind (py_get out1 (i_out s - 2)) (\<lambda>o2.
     ebind (py_get rail1 (i_out s - 1)) (\<lambda>r1.
       let x = (r0 - r2) * cnj o1;
           y = (o0 - o2) * cnj r1;
           mm_val = Re (y - x)
       in Inr (s\<lparr> out := out1, out_rail := rail1 \<rparr>, mm_val))))))))))"

text \<open>
  The last four statements: \<^verbatim>\<open>mu += sps + 0.3*mm_val\<close>,
  \<^verbatim>\<open>i_in += int(np.floor(mu))\<close>, \<^verbatim>\<open>mu = mu - np.floor(mu)\<close>, \<^verbatim>\<open>i_out += 1\<close>.
  The gain \<open>0.3\<close> is the literal of the source; \<open>sps\<close> is the notebook's global variable.
\<close>

definition mm_update :: "real \<Rightarrow> mm_state \<Rightarrow> real \<Rightarrow> mm_state" where
  "mm_update sps s mm_val =
     (let mu1 = mu s + (sps + 0.3 * mm_val);
          i_in1 = i_in s + \<lfloor>mu1\<rfloor>;
          mu2 = mu1 - of_int \<lfloor>mu1\<rfloor>
      in s\<lparr> mu := mu2, i_in := i_in1, i_out := i_out s + 1 \<rparr>)"

text \<open>One pass through the loop body.\<close>

definition mm_step :: "real \<Rightarrow> complex list \<Rightarrow> mm_state \<Rightarrow> error + mm_state" where
  "mm_step sps samples s =
     ebind (mm_detect samples s) (\<lambda>(s1, mm_val). Inr (mm_update sps s1 mm_val))"

text \<open>The \<^verbatim>\<open>while\<close> loop; an exception raised in the body ends it.\<close>

function mm_loop :: "real \<Rightarrow> complex list \<Rightarrow> mm_state \<Rightarrow> error + mm_state" where
  "mm_loop sps samples s =
     (if mm_guard samples s
      then (case mm_step sps samples s of
              Inl e \<Rightarrow> Inl e
            | Inr s' \<Rightarrow> mm_loop sps samples s')
      else Inr s)"
  by pat_completeness auto
termination
  by (relation "measure (\<lambda>(sps, samples, s). nat (int (length samples) - i_out s))")
     (auto simp: mm_guard_def mm_step_def mm_detect_def mm_update_def ebind_def Let_def
           split: sum.splits)

declare mm_loop.simps [simp del]

text \<open>The whole cell: initialise, loop, then \<^verbatim>\<open>out = out[2:i_out]\<close>.\<close>

definition clock_recovery :: "real \<Rightarrow> complex list \<Rightarrow> error + complex list" where
  "clock_recovery sps samples =
     (case mm_loop sps samples (mm_init samples) of
        Inl e \<Rightarrow> Inl e
      | Inr s \<Rightarrow> Inr (py_slice (out s) 2 (i_out s)))"

text \<open>
  The first \<open>n\<close> iterations of the loop: the state at the loop head after them, the final
  state when the loop has stopped before, or the exception raised on the way.
\<close>

fun mm_iterate :: "real \<Rightarrow> complex list \<Rightarrow> nat \<Rightarrow> mm_state \<Rightarrow> error + mm_state" where
  "mm_iterate sps samples 0 s = Inr s"
| "mm_iterate sps samples (Suc n) s =
     (if mm_guard samples s
      then (case mm_step sps samples s of
              Inl e \<Rightarrow> Inl e
            | Inr s' \<Rightarrow> mm_iterate sps samples n s')
      else Inr s)"

text \<open>The states the loop head is reached with, in a run from the initial state.\<close>

inductive mm_reach :: "real \<Rightarrow> complex list \<Rightarrow> mm_state \<Rightarrow> bool"
  for sps :: real and samples :: "complex list" where
  reach_init: "mm_reach sps samples (mm_init samples)"
| reach_step: "mm_reach sps samples s \<Longrightarrow> mm_guard samples s \<Longrightarrow>
     mm_step sps samples s = Inr s' \<Longrightarrow> mm_reach sps samples s'"

text \<open>
  The concrete scenario: the pulse train of the first cell, with no pulse shaping, noise
  or delay applied, is the input stream of the recovery loop.
\<close>

definition recover_pulse_train :: "nat \<Rightarrow> int list \<Rightarrow> error + complex list" where
  "recover_pulse_train sps bits =
     ebind (pulse_train sps bits) (\<lambda>p. clock_recovery (real sps) (map complex_of_real p))"

section \<open>The recovery loop in float64 arithmetic\<close>

text \<open>
  The same cell with NumPy's arithmetic as it runs: a \<^verbatim>\<open>float64\<close> is a finite
  binary64 number, an infinity or NaN, every operation rounds to nearest, ties to even,
  and overflows to an infinity.  The two zeros are not told apart: the loop never divides,
  and no comparison or conversion it makes depends on the sign of a zero.
\<close>

subsection \<open>binary64\<close>

datatype f64 = Fin real | PInf | NInf | NaN

text \<open>\<open>floor(log2 x)\<close> for \<open>x \<ge> 1\<close>, by halving.\<close>

function f64_up :: "real \<Rightarrow> nat" where
  "f64_up x = (if x < 2 then 0 else Suc (f64_up (x / 2)))"
  by pat_completeness auto
termination
proof (relation "measure (\<lambda>x. nat \<lfloor>x\<rfloor>)")
  show "wf (measure (\<lambda>x::real. nat \<lfloor>x\<rfloor>))" by simp
next
  fix x :: real
  assume "\<not> x < 2"
  then have "\<lfloor>x / 2\<rfloor> < \<lfloor>x\<rfloor>" "0 < \<lfloor>x\<rfloor>" by linarith+
  then show "(x / 2, x) \<in> measure (\<lambda>x. nat \<lfloor>x\<rfloor>)" by simp
qed

text \<open>\<open>- floor(log2 x)\<close> for \<open>0 < x < 1\<close>, by doubling.\<close>

function f64_down :: "real \<Rightarrow> nat" where
  "f64_down x = (if x \<le> 0 \<or> 1 \<le> x then 0 else Suc (f64_down (2 * x)))"
  by pat_completeness auto
termination
proof (relation "measure (\<lambda>x. nat \<lceil>1 / x\<rceil>)")
  show "wf (measure (\<lambda>x::real. nat \<lceil>1 / x\<rceil>))" by simp
next
  fix x :: real
  assume "\<not> (x \<le> 0 \<or> 1 \<le> x)"
  then have x: "0 < x" "x < 1" by auto
  then have "1 < 1 / x" by simp
  then have a: "2 \<le> \<lceil>1 / x\<rceil>" by linarith
  have "1 / (2 * x) = (1 / x) / 2" by simp
  then have "\<lceil>1 / (2 * x)\<rceil> < \<lceil>1 / x\<rceil>" using a by linarith
  then show "(2 * x, x) \<in> measure (\<lambda>x. nat \<lceil>1 / x\<rceil>)" using a x by simp
qed

declare f64_up.simps [simp del] f64_down.simps [simp del]

text \<open>The binary exponent of a number other than 0.\<close>

definition f64_exp :: "real \<Rightarrow> int" where
  "f64_exp x = (if 1 \<le> \<bar>x\<bar> then int (f64_up \<bar>x\<bar>) else - int (f64_down \<bar>x\<bar>))"

definition pow2 :: "int \<Rightarrow> real" where
  "pow2 e = (if 0 \<le> e then 2 ^ nat e else 1 / 2 ^ nat (- e))"

text \<open>The nearest integer, the even one of two that are equally near.\<close>

definition round_even :: "real \<Rightarrow> int" where
  "round_even y =
     (if y - of_int \<lfloor>y\<rfloor> < 1 / 2 then \<lfloor>y\<rfloor>
      else if 1 / 2 < y - of_int \<lfloor>y\<rfloor> then \<lfloor>y\<rfloor> + 1
      else if even \<lfloor>y\<rfloor> then \<lfloor>y\<rfloor> else \<lfloor>y\<rfloor> + 1)"

text \<open>
  Rounding of an exact result to binary64: a significand of 53 bits, the least exponent
  \<open>-1022\<close> (below it the spacing stays \<open>2^-1074\<close>), and an infinity from \<open>2^1024\<close> on.
\<close>

definition f64_huge :: real where
  "f64_huge = 2 ^ 1024"

definition f64_round :: "real \<Rightarrow> f64" where
  "f64_round x =
     (if x = 0 then Fin 0
      else let q = pow2 (max (f64_exp x) (- 1022) - 52);
               r = q * of_int (round_even (x / q))
           in if f64_huge \<le> r then PInf
              else if r \<le> - f64_huge then NInf
              else Fin r)"

fun f64_neg :: "f64 \<Rightarrow> f64" where
  "f64_neg (Fin x) = Fin (- x)"
| "f64_neg PInf = NInf"
| "f64_neg NInf = PInf"
| "f64_neg NaN = NaN"

text \<open>The sign of a value that is not NaN, and the infinity of a sign.\<close>

fun f64_sgn :: "f64 \<Rightarrow> int" where
  "f64_sgn (Fin x) = (if 0 < x then 1 else if x < 0 then - 1 else 0)"
| "f64_sgn PInf = 1"
| "f64_sgn NInf = - 1"
| "f64_sgn NaN = 0"

fun f64_add :: "f64 \<Rightarrow> f64 \<Rightarrow> f64" where
  "f64_add (Fin x) (Fin y) = f64_round (x + y)"
| "f64_add NaN b = NaN"
| "f64_add a NaN = NaN"
| "f64_add PInf NInf = NaN"
| "f64_add NInf PInf = NaN"
| "f64_add PInf b = PInf"
| "f64_add NInf b = NInf"
| "f64_add a PInf = PInf"
| "f64_add a NInf = NInf"

definition f64_sub :: "f64 \<Rightarrow> f64 \<Rightarrow> f64" where
  "f64_sub a b = f64_add a (f64_neg b)"

fun f64_mul :: "f64 \<Rightarrow> f64 \<Rightarrow> f64" where
  "f64_mul (Fin x) (Fin y) = f64_round (x * y)"
| "f64_mul NaN b = NaN"
| "f64_mul a NaN = NaN"
| "f64_mul a b =
     (if f64_sgn a * f64_sgn b = 0 then NaN
      else if 0 < f64_sgn a * f64_sgn b then PInf else NInf)"

text \<open>\<^verbatim>\<open>a > 0\<close>: false for NaN.\<close>

fun f64_gt0 :: "f64 \<Rightarrow> bool" where
  "f64_gt0 (Fin x) = (0 < x)"
| "f64_gt0 PInf = True"
| "f64_gt0 NInf = False"
| "f64_gt0 NaN = False"

text \<open>\<^verbatim>\<open>np.floor\<close>.\<close>

fun f64_floor :: "f64 \<Rightarrow> f64" where
  "f64_floor (Fin x) = Fin (of_int \<lfloor>x\<rfloor>)"
| "f64_floor a = a"

text \<open>
  \<^verbatim>\<open>int(a)\<close>: truncation; \<^verbatim>\<open>ValueError\<close> for NaN and \<^verbatim>\<open>OverflowError\<close> for an
  infinity.
\<close>

fun f64_int :: "f64 \<Rightarrow> error + int" where
  "f64_int (Fin x) = Inr (py_int x)"
| "f64_int NaN = Inl ValueError"
| "f64_int a = Inl OverflowError"

subsection \<open>complex128\<close>

type_synonym c128 = "f64 \<times> f64"

definition c128_sub :: "c128 \<Rightarrow> c128 \<Rightarrow> c128" where
  "c128_sub a b = (f64_sub (fst a) (fst b), f64_sub (snd a) (snd b))"

definition c128_conj :: "c128 \<Rightarrow> c128" where
  "c128_conj a = (fst a, f64_neg (snd a))"

text \<open>The product as NumPy computes it: \<open>(ar*br - ai*bi, ar*bi + ai*br)\<close>.\<close>

definition c128_mul :: "c128 \<Rightarrow> c128 \<Rightarrow> c128" where
  "c128_mul a b =
     (f64_sub (f64_mul (fst a) (fst b)) (f64_mul (snd a) (snd b)),
      f64_add (f64_mul (fst a) (snd b)) (f64_mul (snd a) (fst b)))"

subsection \<open>The loop\<close>

text \<open>The slicer; a NaN component gets the level 0.\<close>

definition slicer64 :: "c128 \<Rightarrow> c128" where
  "slicer64 v = (Fin (int_of_bool (f64_gt0 (fst v))), Fin (int_of_bool (f64_gt0 (snd v))))"

record mm64_state =
  mu64 :: f64
  out64 :: "c128 list"
  out_rail64 :: "c128 list"
  i_in64 :: int
  i_out64 :: int

definition mm64_init :: "c128 list \<Rightarrow> mm64_state" where
  "mm64_init samples =
     \<lparr> mu64 = Fin 0,
       out64 = replicate (length samples + 10) (Fin 0, Fin 0),
       out_rail64 = replicate (length samples + 10) (Fin 0, Fin 0),
       i_in64 = 0,
       i_out64 = 2 \<rparr>"

definition mm64_guard :: "c128 list \<Rightarrow> mm64_state \<Rightarrow> bool" where
  "mm64_guard samples s \<longleftrightarrow>
     i_out64 s < int (length samples) \<and> i_in64 s + 16 < int (length samples)"

text \<open>The first five statements of the body, with \<^verbatim>\<open>int(mu)\<close> as a conversion that can raise.\<close>

definition mm64_detect :: "c128 list \<Rightarrow> mm64_state \<Rightarrow> error + (mm64_state \<times> f64)" where
  "mm64_detect samples s =
     ebind (f64_int (mu64 s)) (\<lambda>k.
     ebind (py_get samples (i_in64 s + k)) (\<lambda>smp.
     ebind (py_set (out64 s) (i_out64 s) smp) (\<lambda>out1.
     ebind (py_get out1 (i_out64 s)) (\<lambda>o0.
     ebind (py_set (out_rail64 s) (i_out64 s) (slicer64 o0)) (\<lambda>rail1.
     ebind (py_get rail1 (i_out64 s)) (\<lambda>r0.
     ebind (py_get rail1 (i_out64 s - 2)) (\<lambda>r2.
     ebind (py_get out1 (i_out64 s - 1)) (\<lambda>o1.
     ebind (py_get out1 (i_out64 s - 2)) (\<lambda>o2.
     ebind (py_get rail1 (i_out64 s - 1)) (\<lambda>r1.
       let x = c128_mul (c128_sub r0 r2) (c128_conj o1);
           y = c128_mul (c128_sub o0 o2) (c128_conj r1);
           mm_val = fst (c128_sub y x)
       in Inr (s\<lparr> out64 := out1, out_rail64 := rail1 \<rparr>, mm_val)))))))))))"

text \<open>
  The last four statements.  The literal \<open>0.3\<close> is the binary64 number nearest to 3/10;
  \<open>sps\<close> is the value of the notebook's variable as a \<^verbatim>\<open>float64\<close>.  The conversion
  \<^verbatim>\<open>int(np.floor(mu))\<close> raises when \<open>mu\<close> is NaN or an infinity.
\<close>

definition mm64_update :: "f64 \<Rightarrow> mm64_state \<Rightarrow> f64 \<Rightarrow> error + mm64_state" where
  "mm64_update sps s mm_val =
     (let mu1 = f64_add (mu64 s) (f64_add sps (f64_mul (f64_round 0.3) mm_val))
      in ebind (f64_int (f64_floor mu1)) (\<lambda>n.
           Inr (s\<lparr> mu64 := f64_sub mu1 (f64_floor mu1),
                      i_in64 := i_in64 s + n,
                      i_out64 := i_out64 s + 1 \<rparr>)))"

definition mm64_step :: "f64 \<Rightarrow> c128 list \<Rightarrow> mm64_state \<Rightarrow> error + mm64_state" where
  "mm64_step sps samples s =
     ebind (mm64_detect samples s) (\<lambda>(s1, mm_val). mm64_update sps s1 mm_val)"

function mm64_loop :: "f64 \<Rightarrow> c128 list \<Rightarrow> mm64_state \<Rightarrow> error + mm64_state" where
  "mm64_loop sps samples s =
     (if mm64_guard samples s
      then (case mm64_step sps samples s of
              Inl e \<Rightarrow> Inl e
            | Inr s' \<Rightarrow> mm64_loop sps samples s')
      else Inr s)"
  by pat_completeness auto
termination
  by (relation "measure (\<lambda>(sps, samples, s). nat (int (length samples) - i_out64 s))")
     (auto simp: mm64_guard_def mm64_step_def mm64_detect_def mm64_update_def ebind_def Let_def
           split: sum.splits)

declare mm64_loop.simps [simp del]

definition clock_recovery64 :: "f64 \<Rightarrow> c128 list \<Rightarrow> error + c128 list" where
  "clock_recovery64 sps samples =
     (case mm64_loop sps samples (mm64_init samples) of
        Inl e \<Rightarrow> Inl e
      | Inr s \<Rightarrow> Inr (py_slice (out64 s) 2 (i_out64 s)))"

text \<open>The first \<open>n\<close> iterations, and the states the loop head is reached with.\<close>

fun mm64_iterate :: "f64 \<Rightarrow> c128 list \<Rightarrow> nat \<Rightarrow> mm64_state \<Rightarrow> error + mm64_state" where
  "mm64_iterate sps samples 0 s = Inr s"
| "mm64_iterate sps samples (Suc n) s =
     (if mm64_guard samples s
      then (case mm64_step sps samples s of
              Inl e \<Rightarrow> Inl e
            | Inr s' \<Rightarrow> mm64_iterate sps samples n s')
      else Inr s)"

inductive mm64_reach :: "f64 \<Rightarrow> c128 list \<Rightarrow> mm64_state \<Rightarrow> bool"
  for sps :: f64 and samples :: "c128 list" where
  reach64_init: "mm64_reach sps samples (mm64_init samples)"
| reach64_step: "mm64_reach sps samples s \<Longrightarrow> mm64_guard samples s \<Longrightarrow>
     mm64_step sps samples s = Inr s' \<Longrightarrow> mm64_reach sps samples s'"

section \<open>Invariants\<close>

text \<open>
  What holds of every state at the loop head: the output index is at least 2, the
  accumulator is a fraction, and both arrays keep their allocated length.
\<close>

definition mm_wf :: "complex list \<Rightarrow> mm_state \<Rightarrow> bool" where
  "mm_wf samples s \<longleftrightarrow> 2 \<le> i_out s \<and> 0 \<le> mu s \<and> mu s < 1 \<and>
     length (out s) = length samples + 10 \<and> length (out_rail s) = length samples + 10"



section \<open>Properties of the loop in exact arithmetic\<close>

subsection \<open>Array accesses and the error monad\<close>

lemma py_get_in: "0 \<le> i \<Longrightarrow> i < int (length xs) \<Longrightarrow> py_get xs i = Inr (xs ! nat i)"
  by (simp add: py_get_def)

lemma py_set_in: "0 \<le> i \<Longrightarrow> i < int (length xs) \<Longrightarrow> py_set xs i v = Inr (xs[nat i := v])"
  by (simp add: py_set_def)

lemma py_set_length: "py_set xs i v = Inr ys \<Longrightarrow> length ys = length xs"
  by (auto simp: py_set_def split: if_splits)

lemma ebind_Inr: "ebind (Inr v) f = f v"
  by (simp add: ebind_def)

lemma ebind_Inl: "ebind (Inl e) f = Inl e"
  by (simp add: ebind_def)

lemma ebind_eq_Inr: "ebind m f = Inr y \<longleftrightarrow> (\<exists>v. m = Inr v \<and> f v = Inr y)"
  by (cases m) (simp_all add: ebind_def)

lemma py_int_frac: "0 \<le> r \<Longrightarrow> r < 1 \<Longrightarrow> py_int r = 0"
  by (simp add: py_int_def floor_eq_iff)

subsection \<open>One iteration\<close>

text \<open>
  With the output index inside both arrays and at least 2, only the read of the input
  stream can raise; the body then stores the sample and its decision at \<open>i_out\<close>.
\<close>

lemma mm_detect_in:
  assumes "2 \<le> i_out s" "i_out s < int (length (out s))" "i_out s < int (length (out_rail s))"
  shows "mm_detect samples s =
     ebind (py_get samples (i_in s + py_int (mu s))) (\<lambda>smp.
       Inr (s\<lparr> out := (out s)[nat (i_out s) := smp],
                out_rail := (out_rail s)[nat (i_out s) := slicer smp] \<rparr>,
            Re ((smp - out s ! nat (i_out s - 2)) * cnj (out_rail s ! nat (i_out s - 1))
                - (slicer smp - out_rail s ! nat (i_out s - 2)) * cnj (out s ! nat (i_out s - 1)))))"
proof (cases "py_get samples (i_in s + py_int (mu s))")
  case (Inl e)
  then show ?thesis by (simp add: mm_detect_def ebind_Inl)
next
  case (Inr smp)
  have n: "nat (i_out s - 2) \<noteq> nat (i_out s)" "nat (i_out s - 1) \<noteq> nat (i_out s)"
    using assms by auto
  show ?thesis
    using assms n
    by (simp add: mm_detect_def Inr py_get_in py_set_in Let_def ebind_Inr)
qed

lemma mm_detect_facts:
  assumes "mm_detect samples s = Inr (s1, e)"
  shows "mu s1 = mu s" "i_in s1 = i_in s" "i_out s1 = i_out s"
    "length (out s1) = length (out s)" "length (out_rail s1) = length (out_rail s)"
  using assms
  by (auto simp: mm_detect_def ebind_eq_Inr Let_def dest: py_set_length)

lemma mm_update_mu: "0 \<le> mu (mm_update sps s e)" "mu (mm_update sps s e) < 1"
  by (simp_all add: mm_update_def Let_def) linarith

lemma mm_update_facts:
  "i_out (mm_update sps s e) = i_out s + 1"
  "i_in (mm_update sps s e) = i_in s + \<lfloor>mu s + (sps + 0.3 * e)\<rfloor>"
  "out (mm_update sps s e) = out s"
  "out_rail (mm_update sps s e) = out_rail s"
  by (simp_all add: mm_update_def Let_def)

lemma mm_step_eq_Inr:
  "mm_step sps samples s = Inr s' \<longleftrightarrow>
     (\<exists>s1 e. mm_detect samples s = Inr (s1, e) \<and> s' = mm_update sps s1 e)"
  by (auto simp: mm_step_def ebind_eq_Inr)

lemma mm_step_facts:
  assumes "mm_step sps samples s = Inr s'"
  shows "i_out s' = i_out s + 1" "length (out s') = length (out s)"
    "length (out_rail s') = length (out_rail s)" "0 \<le> mu s'" "mu s' < 1"
  using assms
  by (auto simp: mm_step_eq_Inr mm_update_facts mm_update_mu mm_detect_facts)

subsection \<open>The loop-head invariant\<close>

lemma mm_wf_init: "mm_wf samples (mm_init samples)"
  by (simp add: mm_wf_def mm_init_def)



text \<open>The state after the first \<open>n\<close> iterations is one the loop head is reached with.\<close>

lemma mm_iterate_reach:
  "mm_reach sps samples s \<Longrightarrow> mm_iterate sps samples n s = Inr s' \<Longrightarrow>
   mm_reach sps samples s'"
proof (induction n arbitrary: s)
  case 0
  then show ?case by simp
next
  case (Suc n)
  show ?case
  proof (cases "mm_guard samples s")
    case False
    with Suc.prems show ?thesis by simp
  next
    case True
    with Suc.prems(2) obtain s1 where s1: "mm_step sps samples s = Inr s1"
      and it: "mm_iterate sps samples n s1 = Inr s'"
      by (auto split: sum.splits)
    have "mm_reach sps samples s1" using Suc.prems(1) True s1 by (rule reach_step)
    then show ?thesis using it by (rule Suc.IH)
  qed
qed

subsection \<open>Evaluation on concrete streams\<close>

lemmas mm_eval =
  clock_recovery_def recover_pulse_train_def pulse_train_def pulse_def
  mm_loop.simps mm_init_def mm_guard_def mm_step_def mm_detect_def
  mm_update_def py_get_def py_set_def py_int_def py_slice_def py_clip_def ebind_def slicer_def
  int_of_bool_def Let_def eval_nat_numeral nth_Cons'

subsection \<open>The body at a reachable loop head\<close>

text \<open>
  At a reachable loop head whose condition holds, the body reduces to the read of
  \<open>samples[i_in]\<close> followed by the update: the truncation \<open>int(mu)\<close> is 0, and every
  access to \<open>out\<close> and \<open>out_rail\<close> is inside the arrays.
\<close>

lemma mm_step_wf:
  assumes "mm_wf samples s" "mm_guard samples s"
  shows "mm_step sps samples s =
     ebind (py_get samples (i_in s)) (\<lambda>smp.
       Inr (mm_update sps
         (s\<lparr> out := (out s)[nat (i_out s) := smp],
              out_rail := (out_rail s)[nat (i_out s) := slicer smp] \<rparr>)
         (Re ((smp - out s ! nat (i_out s - 2)) * cnj (out_rail s ! nat (i_out s - 1))
              - (slicer smp - out_rail s ! nat (i_out s - 2)) * cnj (out s ! nat (i_out s - 1))))))"
proof -
  have b: "2 \<le> i_out s" "i_out s < int (length (out s))" "i_out s < int (length (out_rail s))"
    using assms by (auto simp: mm_wf_def mm_guard_def)
  have m: "py_int (mu s) = 0"
    using assms(1) by (simp add: mm_wf_def py_int_frac)
  show ?thesis
    by (cases "py_get samples (i_in s)")
       (simp_all add: mm_step_def mm_detect_in [OF b] m ebind_Inl ebind_Inr)
qed

subsection \<open>The input index across iterations\<close>

text \<open>
  An iteration adds \<open>floor(mu + sps + 0.3 * mm_val)\<close> to \<open>i_in\<close>, where \<open>mm_val\<close> is the
  detector value of that iteration: \<open>i_in\<close> does not fall exactly when that sum is not
  negative.
\<close>

lemma mm_step_i_in_le_iff:
  "mm_detect samples s = Inr (s1, e) \<Longrightarrow> mm_step sps samples s = Inr s' \<Longrightarrow>
   (i_in s \<le> i_in s' \<longleftrightarrow> 0 \<le> mu s + (sps + 0.3 * e))"
  by (auto simp: mm_step_eq_Inr mm_update_facts mm_detect_facts)












subsection \<open>Streams too short for the loop\<close>

lemma mm_loop_mono:
  "mm_loop sps samples s = Inr s' \<Longrightarrow> i_out s \<le> i_out s' \<and> length (out s') = length (out s)"
proof (induction sps samples s rule: mm_loop.induct)
  case (1 sps samples s)
  show ?case
  proof (cases "mm_guard samples s")
    case False
    with "1.prems" show ?thesis by (simp add: mm_loop.simps)
  next
    case True
    with "1.prems" obtain s1 where s1: "mm_step sps samples s = Inr s1"
      and l: "mm_loop sps samples s1 = Inr s'"
      by (auto simp: mm_loop.simps [of sps samples s] split: sum.splits)
    from "1.IH" [OF True s1 l] mm_step_facts(1,2) [OF s1] show ?thesis by simp
  qed
qed

lemma clock_recovery_short:
  "length samples \<le> 16 \<Longrightarrow> clock_recovery sps samples = Inr []"
  by (simp add: clock_recovery_def mm_loop.simps mm_guard_def mm_init_def py_slice_def py_clip_def)

text \<open>The first iteration, for a stream of more than 16 samples.\<close>

lemma mm_step_init:
  assumes "16 < length samples"
  shows "mm_step sps samples (mm_init samples) =
     Inr \<lparr> mu = sps - of_int \<lfloor>sps\<rfloor>,
           out = (replicate (length samples + 10) 0)[2 := samples ! 0],
           out_rail = (replicate (length samples + 10) 0)[2 := slicer (samples ! 0)],
           i_in = \<lfloor>sps\<rfloor>, i_out = 3 \<rparr>"
proof -
  have g: "mm_guard samples (mm_init samples)"
    using assms by (simp add: mm_guard_def mm_init_def)
  have "i_in (mm_init samples) = 0" by (simp add: mm_init_def)
  moreover have "py_get samples 0 = Inr (samples ! nat 0)"
    using assms by (intro py_get_in) auto
  ultimately have r: "py_get samples (i_in (mm_init samples)) = Inr (samples ! 0)"
    by simp
  show ?thesis
    by (simp add: mm_step_wf [OF mm_wf_init g] r ebind_Inr)
       (simp add: mm_init_def mm_update_def Let_def)
qed

lemma clock_recovery_long:
  assumes "16 < length samples"
  shows "clock_recovery sps samples \<noteq> Inr []"
proof
  assume e: "clock_recovery sps samples = Inr []"
  have g: "mm_guard samples (mm_init samples)"
    using assms by (simp add: mm_guard_def mm_init_def)
  from e obtain s' where l: "mm_loop sps samples (mm_init samples) = Inr s'"
    and o: "py_slice (out s') 2 (i_out s') = []"
    by (auto simp: clock_recovery_def split: sum.splits)
  from l g obtain s1 where s1: "mm_step sps samples (mm_init samples) = Inr s1"
    and l1: "mm_loop sps samples s1 = Inr s'"
    by (auto simp: mm_loop.simps [of sps samples "mm_init samples"] split: sum.splits)
  have "i_out s1 = 3" "length (out s1) = length samples + 10"
    using mm_step_facts(1,2) [OF s1] by (simp_all add: mm_init_def)
  with mm_loop_mono [OF l1] have "3 \<le> i_out s'" "length (out s') = length samples + 10"
    by simp_all
  with o assms show False
    by (simp add: py_slice_def py_clip_def min_def split: if_splits)
qed

text \<open>
  C2, as the code has it.  The threshold is the margin alone: the cell returns the empty
  output sequence, without an exception, exactly when the input stream has at most 16
  samples.  The loop body is then never entered, so the stream is never read.
\<close>

theorem empty_output_iff_short:
  "clock_recovery sps samples = Inr [] \<longleftrightarrow> length samples \<le> 16"
  using clock_recovery_short [of samples sps] clock_recovery_long [of samples sps]
  by (cases "length samples \<le> 16") auto

theorem empty_output_iff_short_witness:
  "clock_recovery 8 (replicate 16 1) = Inr [] \<and> length (replicate 16 (1::complex)) \<le> 16"
  using empty_output_iff_short [of 8 "replicate 16 1"] by simp

text \<open>
  Below \<open>2 * sps + 16 = 32\<close> samples the output need not be empty and the run need not
  be free of out-of-bounds reads: with \<open>sps = 8\<close>, a stream of 17 ones gives one output
  sample, and the 25 samples \<open>1000, 0, 0, 0, 0, 0, 0, 0, 1, 0, \<dots>, 0\<close> end the run with
  an \<^verbatim>\<open>IndexError\<close>.
\<close>

theorem short_stream_nonempty_output:
  "clock_recovery 8 (replicate 17 1) = Inr [1] \<and>
   clock_recovery 8 (1000 # replicate 7 0 @ 1 # replicate 16 0) = Inl IndexError"
  by (simp add: mm_eval)

subsection \<open>The slicer\<close>

text \<open>
  C6, as the code has it.  The comparison of the slicer is strict: a component of the
  sample that is greater than 0 gives the level 1, and a component that is 0 or negative
  gives the level 0, for the real and the imaginary part alike.
\<close>

theorem slicer_levels:
  "Re (slicer v) = (if 0 < Re v then 1 else 0) \<and> Im (slicer v) = (if 0 < Im v then 1 else 0)"
  by (simp add: slicer_def int_of_bool_def)

text \<open>A sample whose two components are exactly 0 gets the level 0 on both axes, not 1.\<close>

theorem slicer_zero_low: "slicer 0 = 0 \<and> slicer 0 \<noteq> Complex 1 1"
  by (simp add: slicer_def int_of_bool_def complex_eq_iff)

subsection \<open>No validation of the configuration\<close>

text \<open>
  C7, as the code has it.  Nothing is validated: the gain \<open>0.3\<close> and the margin 16 are
  literals of the loop, and \<open>sps\<close> is used as it is.  With \<open>sps < 1\<close> the cell returns the
  empty output for a stream of at most 16 samples; for a longer stream the loop condition
  holds at once, the first iteration runs, stores \<open>samples[0]\<close> at \<open>out[2]\<close> and adds
  \<open>floor(sps)\<close>, which is not positive, to \<open>i_in\<close>, and the result is never the empty
  output.
\<close>

theorem sps_below_one_runs:
  "sps < 1 \<Longrightarrow>
   (length samples \<le> 16 \<longrightarrow> clock_recovery sps samples = Inr []) \<and>
   (16 < length samples \<longrightarrow>
      mm_guard samples (mm_init samples) \<and>
      mm_step sps samples (mm_init samples) =
        Inr \<lparr> mu = sps - of_int \<lfloor>sps\<rfloor>,
              out = (replicate (length samples + 10) 0)[2 := samples ! 0],
              out_rail = (replicate (length samples + 10) 0)[2 := slicer (samples ! 0)],
              i_in = \<lfloor>sps\<rfloor>, i_out = 3 \<rparr> \<and>
      \<lfloor>sps\<rfloor> \<le> 0 \<and>
      clock_recovery sps samples \<noteq> Inr [])"
proof -
  assume s: "sps < 1"
  have f: "\<lfloor>sps\<rfloor> \<le> 0" using s by linarith
  have a: "length samples \<le> 16 \<longrightarrow> clock_recovery sps samples = Inr []"
    by (simp add: clock_recovery_short)
  have g: "16 < length samples \<longrightarrow> mm_guard samples (mm_init samples)"
    by (simp add: mm_guard_def mm_init_def)
  show ?thesis
    using f a g mm_step_init [of samples sps] clock_recovery_long [of samples sps]
    by blast
qed

theorem sps_below_one_runs_witness:
  "(1 / 2 :: real) < 1 \<and>
   clock_recovery (1 / 2) (replicate 16 1) = Inr [] \<and>
   mm_guard (1 # 100 # replicate 15 0) (mm_init (1 # 100 # replicate 15 0)) \<and>
   mm_step (1 / 2) (1 # 100 # replicate 15 0) (mm_init (1 # 100 # replicate 15 0)) =
     Inr \<lparr> mu = 1 / 2, out = [0, 0, 1] @ replicate 24 0, out_rail = [0, 0, 1] @ replicate 24 0,
           i_in = 0, i_out = 3 \<rparr> \<and>
   clock_recovery (1 / 2) (1 # 100 # replicate 15 0) \<noteq> Inr []"
proof -
  have h: "(1 / 2 :: real) < 1" by simp
  have a: "clock_recovery (1 / 2) (replicate 16 1) = Inr []"
    using sps_below_one_runs [OF h, of "replicate 16 1"] by simp
  have b: "mm_guard (1 # 100 # replicate 15 0) (mm_init (1 # 100 # replicate 15 0))"
    "clock_recovery (1 / 2) (1 # 100 # replicate 15 0) \<noteq> Inr []"
    using sps_below_one_runs [OF h, of "1 # 100 # replicate 15 0"] by simp_all
  have c: "mm_step (1 / 2) (1 # 100 # replicate 15 0) (mm_init (1 # 100 # replicate 15 0)) =
     Inr \<lparr> mu = 1 / 2, out = [0, 0, 1] @ replicate 24 0, out_rail = [0, 0, 1] @ replicate 24 0,
           i_in = 0, i_out = 3 \<rparr>"
    by (simp add: mm_eval complex_eq_iff)
  from h a b c show ?thesis by blast
qed

text \<open>
  A configuration with \<open>sps < 1\<close> is not rejected: with \<open>sps = 1/2\<close> and the 17 samples
  \<open>1, 100, 0, \<dots>, 0\<close> the cell returns an output sequence of two samples.
\<close>

theorem sps_half_gives_output:
  "clock_recovery (1 / 2) (1 # 100 # replicate 15 0) = Inr [1, 1]"
  by (simp add: mm_eval)

subsection \<open>The concrete scenario\<close>

text \<open>
  C1, as the code has it.  The bits 1, 0, 1, 1, 0 give the symbols 1, -1, 1, 1, -1 and, at
  \<open>sps = 8\<close>, a pulse train of 40 samples.  On that train the cell returns the four samples
  1, -1, 0, 0, which the slicer maps to the levels 1, 0, 0, 0: the margin of 16 stops the
  loop after four iterations, and from the third iteration on the read falls between two
  pulses.
\<close>

theorem pulse_train_recovery_output:
  "pulse_train 8 [1, 0, 1, 1, 0] =
     Inr [1, 0, 0, 0, 0, 0, 0, 0, - 1, 0, 0, 0, 0, 0, 0, 0, 1, 0, 0, 0, 0, 0, 0, 0,
          1, 0, 0, 0, 0, 0, 0, 0, - 1, 0, 0, 0, 0, 0, 0, 0] \<and>
   recover_pulse_train 8 [1, 0, 1, 1, 0] = Inr [1, - 1, 0, 0] \<and>
   map slicer [1, - 1, 0, 0] = [1, 0, 0, 0]"
  by (simp add: mm_eval complex_eq_iff)

text \<open>
  The output of that run, sliced or not, is not the sequence 1, -1, 1, 1, -1: it has four
  entries.
\<close>

theorem pulse_train_recovery_not_exact:
  "map_sum id (map slicer) (recover_pulse_train 8 [1, 0, 1, 1, 0]) \<noteq> Inr [1, - 1, 1, 1, - 1] \<and>
   recover_pulse_train 8 [1, 0, 1, 1, 0] \<noteq> Inr [1, - 1, 1, 1, - 1] \<and>
   map_sum id length (recover_pulse_train 8 [1, 0, 1, 1, 0]) = Inr 4"
  by (simp add: mm_eval complex_eq_iff)

section \<open>Properties of the loop in float64 arithmetic\<close>

subsection \<open>Rounding into the unit interval\<close>

lemma round_even_le: "y \<le> of_int N \<Longrightarrow> round_even y \<le> N"
proof -
  assume a: "y \<le> of_int N"
  show ?thesis
  proof (cases "y = of_int N")
    case True
    then show ?thesis by (simp add: round_even_def)
  next
    case False
    with a have "y < of_int N" by simp
    then have "\<lfloor>y\<rfloor> < N" by (simp add: floor_less_iff)
    then show ?thesis by (simp add: round_even_def)
  qed
qed

lemma round_even_ge: "of_int N \<le> y \<Longrightarrow> N \<le> round_even y"
proof -
  assume "of_int N \<le> y"
  then have "N \<le> \<lfloor>y\<rfloor>" by (simp add: le_floor_iff)
  then show ?thesis by (simp add: round_even_def)
qed

lemma f64_down_pos: "0 < x \<Longrightarrow> x < 1 \<Longrightarrow> 1 \<le> f64_down x"
  by (subst f64_down.simps) simp

lemma f64_round_unit:
  assumes "0 \<le> x" "x < 1"
  shows "\<exists>m. f64_round x = Fin m \<and> 0 \<le> m \<and> m \<le> 1"
proof (cases "x = 0")
  case True
  then show ?thesis by (simp add: f64_round_def)
next
  case False
  with assms have x: "0 < x" by simp
  define e where "e = max (f64_exp x) (- 1022)"
  define n where "n = nat (52 - e)"
  have "f64_exp x = - int (f64_down x)" using x assms(2) by (simp add: f64_exp_def)
  with f64_down_pos [OF x assms(2)] have "f64_exp x \<le> - 1" by simp
  then have e: "e \<le> - 1" by (simp add: e_def)
  then have q: "pow2 (e - 52) = 1 / 2 ^ n" by (simp add: pow2_def n_def)
  define k where "k = round_even (x * 2 ^ n)"
  have "x * 2 ^ n \<le> of_int (2 ^ n)" using assms(2) by simp
  then have k1: "k \<le> 2 ^ n" unfolding k_def by (rule round_even_le)
  have "of_int 0 \<le> x * 2 ^ n" using x by simp
  then have k0: "0 \<le> k" unfolding k_def by (rule round_even_ge)
  define r :: real where "r = (1 / 2 ^ n) * of_int k"
  have r0: "0 \<le> r" using k0 by (simp add: r_def)
  have "of_int k \<le> (2::real) ^ n" using k1 by (metis of_int_le_iff of_int_numeral of_int_power)
  then have r1: "r \<le> 1" by (simp add: r_def field_simps)
  have big: "1 < f64_huge" by (simp add: f64_huge_def)
  have rr: "pow2 (max (f64_exp x) (- 1022) - 52) *
      of_int (round_even (x / pow2 (max (f64_exp x) (- 1022) - 52))) = r"
    unfolding e_def [symmetric] q r_def k_def by simp
  have "f64_round x = (if f64_huge \<le> r then PInf else if r \<le> - f64_huge then NInf else Fin r)"
    using False by (simp only: f64_round_def Let_def rr if_False)
  also have "\<dots> = Fin r" using big r0 r1 by simp
  finally have "f64_round x = Fin r" .
  with r0 r1 show ?thesis by blast
qed

subsection \<open>One iteration\<close>


lemma f64_int_floor_Inr: "f64_int (f64_floor a) = Inr n \<Longrightarrow> \<exists>v. a = Fin v \<and> n = \<lfloor>v\<rfloor>"
  by (cases a) (auto simp: py_int_def split: if_splits)

lemma f64_split_unit: "\<exists>m. f64_sub (Fin v) (f64_floor (Fin v)) = Fin m \<and> 0 \<le> m \<and> m \<le> 1"
proof -
  have "0 \<le> v - of_int \<lfloor>v\<rfloor>" "v - of_int \<lfloor>v\<rfloor> < 1" by linarith+
  from f64_round_unit [OF this] show ?thesis by (simp add: f64_sub_def)
qed

lemma mm64_update_Inr:
  assumes "mm64_update sps s e = Inr s'"
  shows "\<exists>m. mu64 s' = Fin m \<and> 0 \<le> m \<and> m \<le> 1"
    and "i_out64 s' = i_out64 s + 1" and "out64 s' = out64 s" and "out_rail64 s' = out_rail64 s"
proof -
  define mu1 where "mu1 = f64_add (mu64 s) (f64_add sps (f64_mul (f64_round 0.3) e))"
  from assms obtain n where n: "f64_int (f64_floor mu1) = Inr n"
    and s': "s' = s\<lparr> mu64 := f64_sub mu1 (f64_floor mu1), i_in64 := i_in64 s + n,
                       i_out64 := i_out64 s + 1 \<rparr>"
    by (auto simp: mm64_update_def Let_def mu1_def [symmetric] ebind_eq_Inr)
  from f64_int_floor_Inr [OF n] obtain v where v: "mu1 = Fin v" by blast
  show "\<exists>m. mu64 s' = Fin m \<and> 0 \<le> m \<and> m \<le> 1"
    using f64_split_unit [of v] by (simp add: s' v)
  show "i_out64 s' = i_out64 s + 1" "out64 s' = out64 s" "out_rail64 s' = out_rail64 s"
    by (simp_all add: s')
qed

lemma mm64_detect_facts:
  assumes "mm64_detect samples s = Inr (s1, e)"
  shows "mu64 s1 = mu64 s" "i_in64 s1 = i_in64 s" "i_out64 s1 = i_out64 s"
    "length (out64 s1) = length (out64 s)" "length (out_rail64 s1) = length (out_rail64 s)"
  using assms
  by (auto simp: mm64_detect_def ebind_eq_Inr Let_def dest: py_set_length)

lemma mm64_step_eq_Inr:
  "mm64_step sps samples s = Inr s' \<longleftrightarrow>
     (\<exists>s1 e. mm64_detect samples s = Inr (s1, e) \<and> mm64_update sps s1 e = Inr s')"
  by (auto simp: mm64_step_def ebind_eq_Inr)

lemma mm64_step_facts:
  assumes "mm64_step sps samples s = Inr s'"
  shows "i_out64 s' = i_out64 s + 1" "length (out64 s') = length (out64 s)"
    "length (out_rail64 s') = length (out_rail64 s)"
    "\<exists>m. mu64 s' = Fin m \<and> 0 \<le> m \<and> m \<le> 1"
proof -
  from assms obtain s1 e where d: "mm64_detect samples s = Inr (s1, e)"
    and u: "mm64_update sps s1 e = Inr s'"
    unfolding mm64_step_eq_Inr by blast
  show "i_out64 s' = i_out64 s + 1" "length (out64 s') = length (out64 s)"
    "length (out_rail64 s') = length (out_rail64 s)"
    using mm64_update_Inr(2,3,4) [OF u] mm64_detect_facts [OF d] by simp_all
  show "\<exists>m. mu64 s' = Fin m \<and> 0 \<le> m \<and> m \<le> 1" using u by (rule mm64_update_Inr(1))
qed







subsection \<open>Evaluation on concrete streams\<close>

text \<open>The exponent search, 64 binary places at a time.\<close>

lemma ceiling_minus_one_real: "\<lceil>- 1 :: real\<rceil> = - 1"
  using ceiling_of_int [of "- 1", where ?'a = real] by simp

lemma f64_up_shift: "2 ^ n \<le> x \<Longrightarrow> f64_up x = n + f64_up (x / 2 ^ n)"
proof (induction n arbitrary: x)
  case 0
  then show ?case by simp
next
  case (Suc n)
  from Suc.prems have x: "2 ^ n \<le> x / 2" by simp
  have "(1::real) \<le> 2 ^ n" by simp
  with x have "\<not> x < 2" by linarith
  then have "f64_up x = Suc (f64_up (x / 2))" by (subst f64_up.simps) simp
  also have "\<dots> = Suc (n + f64_up (x / 2 / 2 ^ n))" by (simp only: Suc.IH [OF x])
  also have "x / 2 / 2 ^ n = x / 2 ^ Suc n" by simp
  finally show ?case by (simp only: add_Suc)
qed

lemma f64_down_shift: "0 < x \<Longrightarrow> x * 2 ^ n < 1 \<Longrightarrow> f64_down x = n + f64_down (x * 2 ^ n)"
proof (induction n arbitrary: x)
  case 0
  then show ?case by simp
next
  case (Suc n)
  have e: "(2 * x) * 2 ^ n = x * 2 ^ Suc n" by simp
  from Suc.prems have x: "0 < 2 * x" "(2 * x) * 2 ^ n < 1" by (simp_all only: e)
  have "(1::real) \<le> 2 ^ Suc n" by (rule one_le_power) simp
  then have "x * 1 \<le> x * 2 ^ Suc n" using Suc.prems(1) by (intro mult_left_mono) simp_all
  with Suc.prems(2) have "x < 1" by simp
  with Suc.prems(1) have "f64_down x = Suc (f64_down (2 * x))" by (subst f64_down.simps) simp
  also have "\<dots> = Suc (n + f64_down ((2 * x) * 2 ^ n))" by (simp only: Suc.IH [OF x])
  finally show ?case by (simp only: e add_Suc)
qed

lemma f64_up_eval:
  "f64_up x = (if x < 2 then 0
     else if x < 2 ^ 64 then Suc (f64_up (x / 2))
     else 64 + f64_up (x / 2 ^ 64))"
proof -
  consider "x < 2" | "\<not> x < 2" "x < 2 ^ 64" | "\<not> x < 2 ^ 64" by blast
  then show ?thesis
  proof cases
    case 1
    then show ?thesis by (subst f64_up.simps) (simp only: if_True)
  next
    case 2
    then show ?thesis by (subst f64_up.simps) (simp only: if_True if_False)
  next
    case 3
    then have a: "2 ^ 64 \<le> x" by simp
    have "(2::real) \<le> 2 ^ 64" by simp
    with a have b: "\<not> x < 2" by linarith
    from f64_up_shift [OF a] 3 b show ?thesis by (simp only: if_False)
  qed
qed

lemma f64_down_eval:
  "f64_down x = (if x \<le> 0 \<or> 1 \<le> x then 0
     else if 1 \<le> x * 2 ^ 64 then Suc (f64_down (2 * x))
     else 64 + f64_down (x * 2 ^ 64))"
proof -
  consider "x \<le> 0 \<or> 1 \<le> x" | "\<not> (x \<le> 0 \<or> 1 \<le> x)" "1 \<le> x * 2 ^ 64"
    | "\<not> (x \<le> 0 \<or> 1 \<le> x)" "\<not> 1 \<le> x * 2 ^ 64" by blast
  then show ?thesis
  proof cases
    case 1
    then show ?thesis by (subst f64_down.simps) (simp only: if_True)
  next
    case 2
    then show ?thesis by (subst f64_down.simps) (simp only: if_True if_False)
  next
    case 3
    then have a: "0 < x" "x * 2 ^ 64 < 1" by simp_all
    from f64_down_shift [OF a] 3 show ?thesis by (simp only: if_False)
  qed
qed

lemma f64_huge_eval:
  "f64_huge = 179769313486231590772930519078902473361797697894230657273430081157732675805500963132708477322407536021120113879871393357658789768814416622492847430639474124377767893424865485276302219601246094119453082952085005768838150682342462881473913110540827237163350510684586298239947245938479716304835356329624224137216"
  by (simp add: f64_huge_def)

lemma replicate_eval: "replicate n x = (if n = 0 then [] else x # replicate (n - 1) x)"
  by (cases n) simp_all

lemma list_update_Cons_eval:
  "(x # xs)[n := v] = (if n = 0 then v # xs else x # xs[n - 1 := v])"
  by (cases n) simp_all

lemma mm64_iterate_eval:
  "mm64_iterate sps samples n s =
     (if n = 0 then Inr s
      else if mm64_guard samples s
      then (case mm64_step sps samples s of
              Inl e \<Rightarrow> Inl e
            | Inr s' \<Rightarrow> mm64_iterate sps samples (n - 1) s')
      else Inr s)"
  by (cases n) (auto split: sum.splits)

lemmas mm64_eval =
  clock_recovery64_def mm64_loop.simps mm64_iterate_eval mm64_init_def mm64_guard_def
  mm64_step_def mm64_detect_def
  mm64_update_def py_get_def py_set_def py_int_def py_slice_def py_clip_def ebind_def
  slicer64_def int_of_bool_def Let_def c128_sub_def c128_conj_def c128_mul_def f64_sub_def
  f64_round_def f64_exp_def f64_up_eval f64_down_eval pow2_def round_even_def
  replicate_eval list_update_Cons_eval nth_Cons' ceiling_minus_one_real f64_huge_eval


text \<open>
  The streams of the exact model give the same indices and outputs in float64: the
  scenario of the pulse train, the stream of 17 ones, the stream on which the input index
  falls to \<open>-14\<close>, and the run with \<open>sps = 1/2\<close>.
\<close>

lemma pulse_train_recovery64:
  "clock_recovery64 (Fin 8)
     [(Fin 1, Fin 0), (Fin 0, Fin 0), (Fin 0, Fin 0), (Fin 0, Fin 0), (Fin 0, Fin 0), (Fin 0, Fin 0), (Fin 0, Fin 0), (Fin 0, Fin 0), (Fin (- 1), Fin 0), (Fin 0, Fin 0), (Fin 0, Fin 0), (Fin 0, Fin 0), (Fin 0, Fin 0), (Fin 0, Fin 0), (Fin 0, Fin 0), (Fin 0, Fin 0), (Fin 1, Fin 0), (Fin 0, Fin 0), (Fin 0, Fin 0), (Fin 0, Fin 0), (Fin 0, Fin 0), (Fin 0, Fin 0), (Fin 0, Fin 0), (Fin 0, Fin 0), (Fin 1, Fin 0), (Fin 0, Fin 0), (Fin 0, Fin 0), (Fin 0, Fin 0), (Fin 0, Fin 0), (Fin 0, Fin 0), (Fin 0, Fin 0), (Fin 0, Fin 0), (Fin (- 1), Fin 0), (Fin 0, Fin 0), (Fin 0, Fin 0), (Fin 0, Fin 0), (Fin 0, Fin 0), (Fin 0, Fin 0), (Fin 0, Fin 0), (Fin 0, Fin 0)] =
   Inr [(Fin 1, Fin 0), (Fin (- 1), Fin 0), (Fin 0, Fin 0), (Fin 0, Fin 0)]"
  by (simp add: mm64_eval)

lemma ones_recovery64:
  "clock_recovery64 (Fin 8) (replicate 17 (Fin 1, Fin 0)) = Inr [(Fin 1, Fin 0)]"
  by (simp add: mm64_eval)

lemma input_index_decreases64:
  "map_sum id i_in64
     (mm64_iterate (Fin 8)
        ((Fin 100, Fin 0) # replicate 7 (Fin 0, Fin 0) @ (Fin 1, Fin 0) # replicate 16 (Fin 0, Fin 0)) 2
        (mm64_init
        ((Fin 100, Fin 0) # replicate 7 (Fin 0, Fin 0) @ (Fin 1, Fin 0) # replicate 16 (Fin 0, Fin 0)))) =
   Inr (- 14)"
  by (simp add: mm64_eval)

lemma sps_half_recovery64:
  "clock_recovery64 (Fin (1 / 2)) ((Fin 1, Fin 0) # (Fin 100, Fin 0) # replicate 15 (Fin 0, Fin 0)) =
   Inr [(Fin 1, Fin 0), (Fin 1, Fin 0)]"
  by (simp add: mm64_eval)

subsection \<open>The accumulator after an iteration\<close>




subsection \<open>The sample that an iteration reads\<close>









subsection \<open>Bounds of the read index\<close>




subsection \<open>Termination and the exit of the loop\<close>

text \<open>Once the fuel covers the distance of \<open>i_out\<close> to the stream length, it is enough.\<close>

lemma mm64_iterate_loop:
  "nat (int (length samples) - i_out64 s) \<le> n \<Longrightarrow>
   mm64_iterate sps samples n s = mm64_loop sps samples s"
proof (induction n arbitrary: s)
  case 0
  then have "\<not> mm64_guard samples s" by (simp add: mm64_guard_def)
  then show ?case by (simp add: mm64_loop.simps)
next
  case (Suc n)
  show ?case
  proof (cases "mm64_guard samples s")
    case False
    then show ?thesis by (simp add: mm64_loop.simps)
  next
    case True
    show ?thesis
    proof (cases "mm64_step sps samples s")
      case (Inl e)
      with True show ?thesis by (simp add: mm64_loop.simps [of sps samples s])
    next
      case (Inr s')
      have "nat (int (length samples) - i_out64 s') \<le> n"
        using Suc.prems mm64_step_facts(1) [OF Inr] by simp
      from Suc.IH [OF this] True Inr show ?thesis
        by (simp add: mm64_loop.simps [of sps samples s])
    qed
  qed
qed

lemma mm64_loop_reach:
  "mm64_reach sps samples s \<Longrightarrow> mm64_loop sps samples s = Inr s' \<Longrightarrow>
   mm64_reach sps samples s' \<and> \<not> mm64_guard samples s'"
proof (induction sps samples s rule: mm64_loop.induct)
  case (1 sps samples s)
  show ?case
  proof (cases "mm64_guard samples s")
    case False
    with "1.prems" show ?thesis by (simp add: mm64_loop.simps)
  next
    case True
    with "1.prems" obtain s1 where s1: "mm64_step sps samples s = Inr s1"
      and l: "mm64_loop sps samples s1 = Inr s'"
      by (auto simp: mm64_loop.simps [of sps samples s] split: sum.splits)
    have "mm64_reach sps samples s1" using "1.prems"(1) True s1 by (rule reach64_step)
    from "1.IH" [OF True s1 this l] show ?thesis .
  qed
qed


text \<open>
  C9, as the code has it.  For every input stream of length \<open>L\<close> the loop terminates, and
  at most \<open>L - 2\<close> iterations run: the result of the loop is the result of its first
  \<open>L - 2\<close> iterations.  When the loop ends without an exception, it ends at the first loop
  head where \<open>i_out\<close> has reached \<open>L\<close> or \<open>i_in + 16\<close> has reached or passed \<open>L\<close>.  It can
  also end by an exception, with neither of the two reached: the \<^verbatim>\<open>IndexError\<close> of a
  read, or the \<^verbatim>\<open>ValueError\<close> or \<^verbatim>\<open>OverflowError\<close> of \<^verbatim>\<open>int(np.floor(mu))\<close> when \<open>mu\<close> is
  NaN or an infinity.
\<close>

theorem loop64_bounded_and_exit:
  "mm64_loop sps samples (mm64_init samples) =
     mm64_iterate sps samples (length samples - 2) (mm64_init samples) \<and>
   (mm64_loop sps samples (mm64_init samples) = Inr s' \<longrightarrow>
      mm64_reach sps samples s' \<and>
      (int (length samples) \<le> i_out64 s' \<or> int (length samples) \<le> i_in64 s' + 16))"
proof -
  have "nat (int (length samples) - i_out64 (mm64_init samples)) \<le> length samples - 2"
    by (simp add: mm64_init_def)
  from mm64_iterate_loop [OF this]
  have a: "mm64_loop sps samples (mm64_init samples) =
     mm64_iterate sps samples (length samples - 2) (mm64_init samples)" by simp
  show ?thesis
    using a mm64_loop_reach [OF reach64_init, of sps samples s']
    by (auto simp: mm64_guard_def)
qed

theorem loop64_bounded_and_exit_witness:
  "mm64_loop (Fin 8) (replicate 17 (Fin 1, Fin 0)) (mm64_init (replicate 17 (Fin 1, Fin 0))) =
     Inr \<lparr> mu64 = Fin 0,
       out64 = [(Fin 0, Fin 0), (Fin 0, Fin 0), (Fin 1, Fin 0)] @ replicate 24 (Fin 0, Fin 0),
       out_rail64 = [(Fin 0, Fin 0), (Fin 0, Fin 0), (Fin 1, Fin 0)] @ replicate 24 (Fin 0, Fin 0),
       i_in64 = 8, i_out64 = 3 \<rparr> \<and>
   mm64_iterate (Fin 8) (replicate 17 (Fin 1, Fin 0)) (17 - 2) (mm64_init (replicate 17 (Fin 1, Fin 0))) =
     Inr \<lparr> mu64 = Fin 0,
       out64 = [(Fin 0, Fin 0), (Fin 0, Fin 0), (Fin 1, Fin 0)] @ replicate 24 (Fin 0, Fin 0),
       out_rail64 = [(Fin 0, Fin 0), (Fin 0, Fin 0), (Fin 1, Fin 0)] @ replicate 24 (Fin 0, Fin 0),
       i_in64 = 8, i_out64 = 3 \<rparr> \<and>
   mm64_reach (Fin 8) (replicate 17 (Fin 1, Fin 0))
     \<lparr> mu64 = Fin 0,
       out64 = [(Fin 0, Fin 0), (Fin 0, Fin 0), (Fin 1, Fin 0)] @ replicate 24 (Fin 0, Fin 0),
       out_rail64 = [(Fin 0, Fin 0), (Fin 0, Fin 0), (Fin 1, Fin 0)] @ replicate 24 (Fin 0, Fin 0),
       i_in64 = 8, i_out64 = 3 \<rparr> \<and>
   (17::int) \<le> 8 + 16"
proof -
  have l: "mm64_loop (Fin 8) (replicate 17 (Fin 1, Fin 0)) (mm64_init (replicate 17 (Fin 1, Fin 0))) =
     Inr \<lparr> mu64 = Fin 0,
       out64 = [(Fin 0, Fin 0), (Fin 0, Fin 0), (Fin 1, Fin 0)] @ replicate 24 (Fin 0, Fin 0),
       out_rail64 = [(Fin 0, Fin 0), (Fin 0, Fin 0), (Fin 1, Fin 0)] @ replicate 24 (Fin 0, Fin 0),
       i_in64 = 8, i_out64 = 3 \<rparr>"
    by (simp add: mm64_eval)
  from loop64_bounded_and_exit [of "Fin 8" "(replicate 17 (Fin 1, Fin 0))"
      "\<lparr> mu64 = Fin 0,
       out64 = [(Fin 0, Fin 0), (Fin 0, Fin 0), (Fin 1, Fin 0)] @ replicate 24 (Fin 0, Fin 0),
       out_rail64 = [(Fin 0, Fin 0), (Fin 0, Fin 0), (Fin 1, Fin 0)] @ replicate 24 (Fin 0, Fin 0),
       i_in64 = 8, i_out64 = 3 \<rparr>"] l
  show ?thesis by simp
qed

text \<open>
  The loop can stop with its condition still true, on finite samples and without any read
  out of bounds.  With \<open>sps = 8\<close> and 33 samples that are \<open>-2^1023\<close> at the indices 0 and
  8, \<open>2^1023\<close> at the index 16 and 0 elsewhere, two iterations run; in the third,
  \<open>out[4] - out[2]\<close> overflows to an infinity, its product with the decision 0 is NaN, so
  is \<open>mu\<close>, and \<^verbatim>\<open>int(np.floor(mu))\<close> raises \<^verbatim>\<open>ValueError\<close>, with \<open>i_out = 4\<close> and
  \<open>i_in + 16 = 32\<close> both below 33.
\<close>

theorem loop64_stops_on_exception:
  "mm64_iterate (Fin 8) ((Fin (- (2 ^ 1023)), Fin 0) # replicate 7 (Fin 0, Fin 0) @ (Fin (- (2 ^ 1023)), Fin 0) # replicate 7 (Fin 0, Fin 0) @ (Fin (2 ^ 1023), Fin 0) # replicate 16 (Fin 0, Fin 0)) 2 (mm64_init ((Fin (- (2 ^ 1023)), Fin 0) # replicate 7 (Fin 0, Fin 0) @ (Fin (- (2 ^ 1023)), Fin 0) # replicate 7 (Fin 0, Fin 0) @ (Fin (2 ^ 1023), Fin 0) # replicate 16 (Fin 0, Fin 0))) =
     Inr \<lparr> mu64 = Fin 0,
       out64 = [(Fin 0, Fin 0), (Fin 0, Fin 0), (Fin (- (2 ^ 1023)), Fin 0), (Fin (- (2 ^ 1023)), Fin 0)] @ replicate 39 (Fin 0, Fin 0),
       out_rail64 = replicate 43 (Fin 0, Fin 0),
       i_in64 = 16, i_out64 = 4 \<rparr> \<and>
   mm64_guard ((Fin (- (2 ^ 1023)), Fin 0) # replicate 7 (Fin 0, Fin 0) @ (Fin (- (2 ^ 1023)), Fin 0) # replicate 7 (Fin 0, Fin 0) @ (Fin (2 ^ 1023), Fin 0) # replicate 16 (Fin 0, Fin 0))
     \<lparr> mu64 = Fin 0,
       out64 = [(Fin 0, Fin 0), (Fin 0, Fin 0), (Fin (- (2 ^ 1023)), Fin 0), (Fin (- (2 ^ 1023)), Fin 0)] @ replicate 39 (Fin 0, Fin 0),
       out_rail64 = replicate 43 (Fin 0, Fin 0),
       i_in64 = 16, i_out64 = 4 \<rparr> \<and>
   mm64_step (Fin 8) ((Fin (- (2 ^ 1023)), Fin 0) # replicate 7 (Fin 0, Fin 0) @ (Fin (- (2 ^ 1023)), Fin 0) # replicate 7 (Fin 0, Fin 0) @ (Fin (2 ^ 1023), Fin 0) # replicate 16 (Fin 0, Fin 0))
     \<lparr> mu64 = Fin 0,
       out64 = [(Fin 0, Fin 0), (Fin 0, Fin 0), (Fin (- (2 ^ 1023)), Fin 0), (Fin (- (2 ^ 1023)), Fin 0)] @ replicate 39 (Fin 0, Fin 0),
       out_rail64 = replicate 43 (Fin 0, Fin 0),
       i_in64 = 16, i_out64 = 4 \<rparr> = Inl ValueError \<and>
   mm64_loop (Fin 8) ((Fin (- (2 ^ 1023)), Fin 0) # replicate 7 (Fin 0, Fin 0) @ (Fin (- (2 ^ 1023)), Fin 0) # replicate 7 (Fin 0, Fin 0) @ (Fin (2 ^ 1023), Fin 0) # replicate 16 (Fin 0, Fin 0)) (mm64_init ((Fin (- (2 ^ 1023)), Fin 0) # replicate 7 (Fin 0, Fin 0) @ (Fin (- (2 ^ 1023)), Fin 0) # replicate 7 (Fin 0, Fin 0) @ (Fin (2 ^ 1023), Fin 0) # replicate 16 (Fin 0, Fin 0))) = Inl ValueError"
  by (simp add: mm64_eval)

end
